theory Spec2Isabelle
  imports Complex_Main "HOL-Library.Multiset"
begin

section \<open>The scanner store of \<^verbatim>\<open>src/hooks/useIPScanner.tsx\<close>\<close>

text \<open>
  The hook keeps its data in one store object (\<^verbatim>\<open>ScannerStore\<close>): the five settings and
  the transient fields of a scan. During a scan the hook reads the settings from the
  snapshot \<^verbatim>\<open>state\<close> it took when it was rendered, and reads \<^verbatim>\<open>scanState\<close> and the
  number of results from the live store (\<^verbatim>\<open>getScanState\<close>, \<^verbatim>\<open>getValidIPCount\<close>); no
  operation of the hook writes a setting. The model therefore keeps the settings and the
  transient fields in two records.

  Numbers: JavaScript numbers are IEEE doubles. Times in milliseconds and the
  products that give the timeouts are modelled as exact rationals; every latency that
  reaches the store went through \<^verbatim>\<open>Math.floor\<close> and is an integer.
\<close>

datatype scan_state = Idle | Stopping | Scanning

datatype color = Red | Green

record valid_ip =
  ip :: string
  latency :: int

record settings =
  maxIPCount :: int
  maxLatency :: rat
  ipRegex :: string
  sniValue :: string
  portValue :: int

record scanner_store =
  testNo :: nat
  validIPs :: "valid_ip list"
  currentIP :: string
  tryChar :: string
  currentLatency :: int
  color :: color
  scanState :: scan_state

definition TRY_CHARS :: "string list" where
  "TRY_CHARS = ['''', ''|'', ''/'', ''-'', [CHR 0x5C]]"

definition MAX_TRIES :: nat where
  "MAX_TRIES = 3"

definition settingsInitialValues :: settings where
  "settingsInitialValues =
     \<lparr>maxIPCount = 5, maxLatency = 1500, ipRegex = '''', sniValue = '''', portValue = 80\<rparr>"

definition initialState :: scanner_store where
  "initialState =
     \<lparr>testNo = 0, validIPs = [], currentIP = '''', tryChar = '''', currentLatency = 0,
      color = Red, scanState = Idle\<rparr>"

definition getScanState :: "scanner_store \<Rightarrow> scan_state" where
  "getScanState s = scanState s"

definition getValidIPCount :: "scanner_store \<Rightarrow> nat" where
  "getValidIPCount s = length (validIPs s)"

text \<open>
  \<^verbatim>\<open>addValidIP\<close> copies the array with the new entry at the end and sorts the copy with
  the comparator \<^verbatim>\<open>a.latency - b.latency\<close>. \<^verbatim>\<open>Array.prototype.sort\<close> is stable, and so is
  \<^const>\<open>sort_key\<close>.
\<close>

definition addValidIP :: "valid_ip \<Rightarrow> scanner_store \<Rightarrow> scanner_store" where
  "addValidIP validIP s =
     (let newArr = validIPs s @ [validIP]
      in s\<lparr>validIPs := sort_key latency newArr\<rparr>)"

definition reset :: "scanner_store \<Rightarrow> scanner_store" where
  "reset s =
     s\<lparr>testNo := 0, validIPs := [], currentIP := '''', tryChar := '''', currentLatency := 0,
       color := Red, scanState := Idle\<rparr>"

definition increaseTestNo :: "scanner_store \<Rightarrow> scanner_store" where
  "increaseTestNo s = s\<lparr>testNo := testNo s + 1\<rparr>"

definition setToIdle :: "scanner_store \<Rightarrow> scanner_store" where
  "setToIdle s = s\<lparr>scanState := Idle, tryChar := ''''\<rparr>"

definition stopScan :: "scanner_store \<Rightarrow> scanner_store" where
  "stopScan s =
     (if getScanState s = Scanning then s\<lparr>scanState := Stopping\<rparr> else setToIdle s)"

section \<open>The transport and the surroundings of a scan\<close>

text \<open>
  The transport (\<^verbatim>\<open>axiosWithSNI\<close>) is not part of the hook. An awaited request either
  resolves or rejects with a thrown value; the hook looks only at whether that value is
  an \<^verbatim>\<open>Error\<close> and at its \<^verbatim>\<open>name\<close>.
\<close>

datatype thrown = ErrorNamed string | NotAnError

datatype attempt_outcome = Responded | Rejected thrown

text \<open>
  What the hook hands over with one attempt: the target (the template string
  \<^verbatim>\<open>http(s)://ip:port\<close> kept as its parts), the path, the SNI value, the delay of the
  timer that calls \<^verbatim>\<open>controller.abort()\<close>, and the timeout argument of
  \<^verbatim>\<open>axiosWithSNI\<close>.
\<close>

record request =
  ssl :: bool
  host :: string
  port :: int
  path :: string
  sni :: string
  attempt :: nat
  abortAfter :: int
  timeoutArg :: rat

text \<open>
  What the surroundings contribute while one attempt runs: the reading of
  \<^verbatim>\<open>performance.now() - startTime\<close> taken when the progress update of the attempt is
  built, the outcome of the awaited request, and how often the user calls
  \<^verbatim>\<open>stopScan\<close> while the request is awaited.
\<close>

record attempt_env =
  elapsedAtDispatch :: rat
  outcome :: attempt_outcome
  stopCalls :: nat

text \<open>
  For one candidate: its attempts, and the reading of \<^verbatim>\<open>performance.now() - startTime\<close>
  after the last attempt. No statement of the loop body outside the inner
  \<^verbatim>\<open>try/catch\<close> is written to throw; \<open>fault\<close> marks a candidate at which an exception
  nobody expected escapes the loop body all the same. It is placed at the first statement
  of the body, before the store changes.
\<close>

record candidate_env =
  fault :: bool
  tries :: "nat \<Rightarrow> attempt_env"
  elapsedTotal :: rat

text \<open>
  The store together with the requests handed to the transport so far (oldest first).
  The list of requests is an observation of the run, not a field of the program.
\<close>

record world =
  st :: scanner_store
  calls :: "request list"

datatype ending = Returned | Threw

text \<open>
  \<^verbatim>\<open>new RegExp(p)\<close> throws a \<^verbatim>\<open>SyntaxError\<close> on an invalid pattern (\<open>None\<close>) and
  otherwise gives the predicate \<^verbatim>\<open>test\<close>.
\<close>

type_synonym regexp_engine = "string \<Rightarrow> (string \<Rightarrow> bool) option"

section \<open>Shuffling\<close>

text \<open>
  Modelled from the spec: the shuffle behind \<^verbatim>\<open>randomizeElements\<close>, which is imported
  from \<^verbatim>\<open>~/helpers/randomizeElements\<close> and is not among the sources. The specification
  describes it as producing a uniformly random permutation of its input, Fisher-Yates or
  equivalent. \<open>draw i\<close> is the random number drawn for position \<open>i\<close>; position \<open>i\<close>
  is exchanged with a position from \<open>0\<close> to \<open>i\<close>.
\<close>

definition swap_at :: "nat \<Rightarrow> nat \<Rightarrow> 'a list \<Rightarrow> 'a list" where
  "swap_at i j xs =
     (if i < length xs \<and> j < length xs then xs[i := xs ! j, j := xs ! i] else xs)"

fun fisher_yates :: "(nat \<Rightarrow> nat) \<Rightarrow> nat \<Rightarrow> 'a list \<Rightarrow> 'a list" where
  "fisher_yates draw 0 xs = xs"
| "fisher_yates draw (Suc i) xs =
     fisher_yates draw i (swap_at (Suc i) (draw (Suc i) mod Suc (Suc i)) xs)"

text \<open>
  Modelled from the spec: \<^verbatim>\<open>randomizeElements\<close> (not among the sources), a random
  permutation of the candidate list, drawn by the shuffle above.
\<close>

definition randomizeElements :: "(nat \<Rightarrow> nat) \<Rightarrow> 'a list \<Rightarrow> 'a list" where
  "randomizeElements draw arr = fisher_yates draw (length arr - 1) arr"

section \<open>Probing one candidate\<close>

definition ports_http :: "int list" where
  "ports_http = [80, 8080, 2052, 2082, 2086, 2095]"

definition ports_https :: "int list" where
  "ports_https = [443, 8443, 2053, 2083, 2087, 2096]"

definition isSSL :: "settings \<Rightarrow> bool" where
  "isSSL cfg = (sniValue cfg \<noteq> [] \<and> portValue cfg \<in> set ports_https)"

definition multiply :: "settings \<Rightarrow> rat" where
  "multiply cfg =
     (if maxLatency cfg \<le> 500 then 3 / 2 else if maxLatency cfg \<le> 1000 then 6 / 5 else 1)"

text \<open>\<^verbatim>\<open>Math.trunc\<close>: towards zero.\<close>

definition trunc :: "rat \<Rightarrow> int" where
  "trunc x = (if 0 \<le> x then \<lfloor>x\<rfloor> else \<lceil>x\<rceil>)"

text \<open>
  The tally of an attempt: \<^verbatim>\<open>testCount++\<close> after a resolved request, and in the
  \<^verbatim>\<open>catch\<close> when the thrown value is an \<^verbatim>\<open>Error\<close> whose name is neither
  \<^verbatim>\<open>AbortError\<close> nor \<^verbatim>\<open>TypeError\<close>.
\<close>

fun counts_as_success :: "attempt_outcome \<Rightarrow> bool" where
  "counts_as_success Responded = True"
| "counts_as_success (Rejected (ErrorNamed name)) =
     (name \<notin> set [''AbortError'', ''TypeError''])"
| "counts_as_success (Rejected NotAnError) = False"

definition build_request :: "settings \<Rightarrow> string \<Rightarrow> nat \<Rightarrow> int \<Rightarrow> rat \<Rightarrow> request" where
  "build_request cfg a i delay timeout =
     (if isSSL cfg
      then \<lparr>ssl = True, host = a, port = portValue cfg, path = ''/__down'',
            sni = sniValue cfg, attempt = i, abortAfter = delay, timeoutArg = timeout\<rparr>
      else \<lparr>ssl = False, host = a, port = (if portValue cfg < 80 then 80 else portValue cfg),
            path = ''/cdn-cgi/trace'',
            sni = sniValue cfg, attempt = i, abortAfter = delay, timeoutArg = timeout\<rparr>)"

text \<open>
  One round of the loop \<^verbatim>\<open>for (let i = 0; i < MAX_TRIES; i++)\<close>. The loop carries the
  variables \<^verbatim>\<open>timeout\<close> and \<^verbatim>\<open>testCount\<close>. The abort timer is armed with the value
  \<^verbatim>\<open>timeout\<close> has on entry; the round then assigns \<^verbatim>\<open>timeout\<close> and passes the new
  value to \<^verbatim>\<open>axiosWithSNI\<close>.
\<close>

definition try_once ::
  "settings \<Rightarrow> string \<Rightarrow> (nat \<Rightarrow> attempt_env) \<Rightarrow> nat \<Rightarrow> rat \<times> nat \<times> world \<Rightarrow> rat \<times> nat \<times> world" where
  "try_once cfg a ae i acc =
     (case acc of (timeout, testCount, w) \<Rightarrow>
        let delay = trunc timeout;
            e = ae i;
            timeout' = (if i = 0 then multiply cfg * maxLatency cfg
                        else 6 / 5 * multiply cfg * maxLatency cfg);
            s1 = (st w)\<lparr>currentIP := a,
                        tryChar := (if i < length TRY_CHARS then TRY_CHARS ! i else []),
                        color := (if i = 0 then Red else Green),
                        currentLatency :=
                          (if i = 0 then 0 else \<lfloor>elapsedAtDispatch e / of_nat (i + 1)\<rfloor>)\<rparr>;
            req = build_request cfg a i delay timeout';
            s2 = (stopScan ^^ stopCalls e) s1;
            testCount' = (if counts_as_success (outcome e) then testCount + 1 else testCount)
        in (timeout', testCount', \<lparr>st = s2, calls = calls w @ [req]\<rparr>))"

text \<open>
  The three rounds for one candidate, entered after \<^verbatim>\<open>increaseTestNo()\<close> with
  \<^verbatim>\<open>testCount = 0\<close> and \<^verbatim>\<open>timeout = 1.5 * multiply * maxLatency\<close>.
\<close>

definition attempts_loop :: "settings \<Rightarrow> string \<Rightarrow> candidate_env \<Rightarrow> world \<Rightarrow> rat \<times> nat \<times> world" where
  "attempts_loop cfg a ce w1 =
     foldl (\<lambda>acc i. try_once cfg a (tries ce) i acc)
       (3 / 2 * multiply cfg * maxLatency cfg, 0, w1) [0..<MAX_TRIES]"

text \<open>
  The body of the loop \<^verbatim>\<open>for (const ip of ipList)\<close> up to the admission; the check
  that leaves the loop is in \<open>testIPs\<close> below.
\<close>

definition test_candidate :: "settings \<Rightarrow> string \<Rightarrow> candidate_env \<Rightarrow> world \<Rightarrow> world" where
  "test_candidate cfg a ce w =
     (let w1 = w\<lparr>st := increaseTestNo (st w)\<rparr>
      in case attempts_loop cfg a ce w1 of
           (timeout, testCount, w2) \<Rightarrow>
             let lat = \<lfloor>elapsedTotal ce / of_nat MAX_TRIES\<rfloor>
             in if testCount = MAX_TRIES \<and> of_int lat \<le> maxLatency cfg \<and> lat > 50
                then w2\<lparr>st := addValidIP \<lparr>ip = a, latency = lat\<rparr> (st w2)\<rparr>
                else w2)"

text \<open>
  A candidate during which nothing interferes: no exception escapes and the user does
  not call \<^verbatim>\<open>stopScan\<close>.
\<close>

definition undisturbed :: "candidate_env \<Rightarrow> bool" where
  "undisturbed ce =
     (\<not> fault ce \<and> stopCalls (tries ce 0) = 0 \<and> stopCalls (tries ce 1) = 0
      \<and> stopCalls (tries ce 2) = 0)"

section \<open>The scan\<close>

text \<open>
  \<^verbatim>\<open>testIPs\<close>: \<open>env k\<close> is what the surroundings contribute at the \<open>k\<close>-th candidate of
  the list. The loop leaves when the live state is no longer \<^verbatim>\<open>scanning\<close> or the store
  holds \<^verbatim>\<open>maxIPCount\<close> results.
\<close>

fun testIPs ::
  "settings \<Rightarrow> (nat \<Rightarrow> candidate_env) \<Rightarrow> nat \<Rightarrow> string list \<Rightarrow> world \<Rightarrow> ending \<times> world" where
  "testIPs cfg env k [] w = (Returned, w)"
| "testIPs cfg env k (a # ipList) w =
     (if fault (env k) then (Threw, w)
      else let w' = test_candidate cfg a (env k) w
           in if getScanState (st w') \<noteq> Scanning
                 \<or> int (getValidIPCount (st w')) \<ge> maxIPCount cfg
              then (Returned, w')
              else testIPs cfg env (Suc k) ipList w')"

text \<open>
  The filter of \<^verbatim>\<open>startScan\<close> and \<^verbatim>\<open>reStart\<close>. The pattern is compiled inside the
  callback of \<^verbatim>\<open>filter\<close>, so an invalid pattern throws only when there is an address to
  test.
\<close>

definition filterIPs :: "regexp_engine \<Rightarrow> settings \<Rightarrow> string list \<Rightarrow> string list option" where
  "filterIPs rx cfg allIps =
     (if ipRegex cfg \<noteq> []
      then (if allIps = [] then Some []
            else case rx (ipRegex cfg) of
                   None \<Rightarrow> None
                 | Some test \<Rightarrow> Some (filter test allIps))
      else Some allIps)"

text \<open>
  \<^verbatim>\<open>startScan\<close> and \<^verbatim>\<open>reStart\<close>. An exception inside \<^verbatim>\<open>try\<close> is caught and written
  to the console; the store is left as it was when the exception was thrown.
  \<^verbatim>\<open>reStart\<close> dismisses the toast (user interface, not modelled) and does not call
  \<^verbatim>\<open>reset\<close>.
\<close>

definition startScan ::
  "regexp_engine \<Rightarrow> settings \<Rightarrow> string list \<Rightarrow> (nat \<Rightarrow> nat) \<Rightarrow> (nat \<Rightarrow> candidate_env) \<Rightarrow> world \<Rightarrow> world" where
  "startScan rx cfg allIps draw env w =
     (let w0 = w\<lparr>st := reset (st w)\<rparr>
      in case filterIPs rx cfg allIps of
           None \<Rightarrow> w0
         | Some ips \<Rightarrow>
             let w1 = w0\<lparr>st := (st w0)\<lparr>scanState := Scanning\<rparr>\<rparr>
             in case testIPs cfg env 0 (randomizeElements draw ips) w1 of
                  (Returned, w2) \<Rightarrow> w2\<lparr>st := setToIdle (st w2)\<rparr>
                | (Threw, w2) \<Rightarrow> w2)"





definition initialWorld :: world where
  "initialWorld = \<lparr>st = initialState, calls = []\<rparr>"

section \<open>Sample surroundings\<close>

text \<open>
  Surroundings used in the examples: a candidate whose three requests all end the same
  way, with \<open>e\<close> milliseconds elapsed after the last one; the same with one call of
  \<^verbatim>\<open>stopScan\<close> during attempt \<open>i\<close>; and a candidate at which an exception escapes.
\<close>

definition steady :: "attempt_outcome \<Rightarrow> rat \<Rightarrow> candidate_env" where
  "steady r e =
     \<lparr>fault = False,
      tries = (\<lambda>i. \<lparr>elapsedAtDispatch = e * of_nat i / 3, outcome = r, stopCalls = 0\<rparr>),
      elapsedTotal = e\<rparr>"

definition stop_during :: "nat \<Rightarrow> candidate_env \<Rightarrow> candidate_env" where
  "stop_during i ce =
     ce\<lparr>tries := (\<lambda>j. if j = i then (tries ce j)\<lparr>stopCalls := 1\<rparr> else tries ce j)\<rparr>"


text \<open>Addresses \<^verbatim>\<open>10.0.0.0\<close>, \<^verbatim>\<open>10.0.0.1\<close>, ... in any number.\<close>

fun decimal :: "nat \<Rightarrow> string" where
  "decimal n =
     (if n < 10 then [char_of (48 + n)] else decimal (n div 10) @ [char_of (48 + n mod 10)])"

definition sample_ips :: "nat \<Rightarrow> string list" where
  "sample_ips n = map (\<lambda>k. ''10.0.0.'' @ decimal k) [0..<n]"

text \<open>
  A stand-in for the regular expression engine on the patterns of the examples: the
  pattern \<^verbatim>\<open>[\<close> is invalid, and a pattern of digits matches the addresses in which it
  occurs.
\<close>

definition occurs_in :: "string \<Rightarrow> string \<Rightarrow> bool" where
  "occurs_in p s = list_ex (\<lambda>n. take (length p) (drop n s) = p) [0..<Suc (length s)]"

definition digits_engine :: regexp_engine where
  "digits_engine p = (if p = ''['' then None else Some (occurs_in p))"

section \<open>Statements of the specification, as definitions\<close>



text \<open>
  The failures the specification excludes from the tally: deadline expiry and abort. In
  the hook the deadline is enforced by the timer that calls \<^verbatim>\<open>controller.abort()\<close>, and
  \<^verbatim>\<open>AbortError\<close> is the name under which a request aborted through its signal is
  rejected. \<^verbatim>\<open>TypeError\<close>, the other name the hook tests, is the name of JavaScript's
  type errors; it does not stand for a deadline or an abort.
\<close>

definition claimed_excluded :: "attempt_outcome \<Rightarrow> bool" where
  "claimed_excluded r = (r = Rejected (ErrorNamed ''AbortError''))"

section \<open>Facts about one candidate and about the loop\<close>

lemma floor_rat_numeral_div [simp]:
  "\<lfloor>(numeral m :: rat) / numeral n\<rfloor> = numeral m div numeral n"
  using floor_divide_of_int_eq [of "numeral m" "numeral n", where ?'a = rat] by simp

lemma upt_MAX_TRIES: "[0..<MAX_TRIES] = [0, 1, 2]"
  by (simp add: MAX_TRIES_def upt_rec)

lemma validIPs_stopScan [simp]: "validIPs (stopScan s) = validIPs s"
  by (simp add: stopScan_def setToIdle_def)

lemma testNo_stopScan [simp]: "testNo (stopScan s) = testNo s"
  by (simp add: stopScan_def setToIdle_def)

lemma validIPs_stopScan_pow [simp]: "validIPs ((stopScan ^^ n) s) = validIPs s"
  by (induction n) simp_all

lemma testNo_stopScan_pow [simp]: "testNo ((stopScan ^^ n) s) = testNo s"
  by (induction n) simp_all

lemma scanState_stopScan:
  "scanState (stopScan s) = (if scanState s = Scanning then Stopping else Idle)"
  by (simp add: stopScan_def setToIdle_def getScanState_def)

lemma scanState_stopScan_pow:
  "scanState ((stopScan ^^ n) s) =
     (if n = 0 then scanState s else if n = 1 \<and> scanState s = Scanning then Stopping else Idle)"
proof (induction n)
  case 0
  show ?case by simp
next
  case (Suc n)
  show ?case
    by (cases "n = 0") (simp_all add: Suc scanState_stopScan)
qed

lemma try_once_eq:
  "try_once cfg a ae i (t, c, w) =
     ((if i = 0 then multiply cfg * maxLatency cfg else 6 / 5 * multiply cfg * maxLatency cfg),
      (if counts_as_success (outcome (ae i)) then c + 1 else c),
      \<lparr>st = (stopScan ^^ stopCalls (ae i))
              ((st w)\<lparr>currentIP := a,
                      tryChar := (if i < length TRY_CHARS then TRY_CHARS ! i else []),
                      color := (if i = 0 then Red else Green),
                      currentLatency := (if i = 0 then 0 else \<lfloor>elapsedAtDispatch (ae i) / of_nat (i + 1)\<rfloor>)\<rparr>),
       calls = calls w @
         [build_request cfg a i (trunc t)
            (if i = 0 then multiply cfg * maxLatency cfg else 6 / 5 * multiply cfg * maxLatency cfg)]\<rparr>)"
  by (simp add: try_once_def Let_def)

lemma attempts_loop_count:
  "fst (snd (attempts_loop cfg a ce w)) =
     (if counts_as_success (outcome (tries ce 0)) then 1 else 0)
     + (if counts_as_success (outcome (tries ce 1)) then 1 else 0)
     + (if counts_as_success (outcome (tries ce 2)) then 1 else 0)"
  by (simp add: attempts_loop_def upt_MAX_TRIES try_once_eq)

lemma attempts_loop_validIPs:
  "validIPs (st (snd (snd (attempts_loop cfg a ce w)))) = validIPs (st w)"
  by (simp add: attempts_loop_def upt_MAX_TRIES try_once_eq)

lemma attempts_loop_testNo:
  "testNo (st (snd (snd (attempts_loop cfg a ce w)))) = testNo (st w)"
  by (simp add: attempts_loop_def upt_MAX_TRIES try_once_eq)

lemma attempts_loop_calls:
  "calls (snd (snd (attempts_loop cfg a ce w))) = calls w @
     [build_request cfg a 0 (trunc (3 / 2 * multiply cfg * maxLatency cfg)) (multiply cfg * maxLatency cfg),
      build_request cfg a 1 (trunc (multiply cfg * maxLatency cfg)) (6 / 5 * multiply cfg * maxLatency cfg),
      build_request cfg a 2 (trunc (6 / 5 * multiply cfg * maxLatency cfg)) (6 / 5 * multiply cfg * maxLatency cfg)]"
  by (simp add: attempts_loop_def upt_MAX_TRIES try_once_eq)

lemma attempts_loop_scanState:
  "scanState (st (snd (snd (attempts_loop cfg a ce w)))) =
     (if stopCalls (tries ce 0) + stopCalls (tries ce 1) + stopCalls (tries ce 2) = 0
      then scanState (st w)
      else if stopCalls (tries ce 0) + stopCalls (tries ce 1) + stopCalls (tries ce 2) = 1
              \<and> scanState (st w) = Scanning
      then Stopping else Idle)"
  by (simp add: attempts_loop_def upt_MAX_TRIES try_once_eq scanState_stopScan_pow)

text \<open>The admission test of a candidate, in terms of its surroundings.\<close>

lemma test_candidate_cases:
  "test_candidate cfg a ce w =
     (let w2 = snd (snd (attempts_loop cfg a ce (w\<lparr>st := increaseTestNo (st w)\<rparr>)))
      in if counts_as_success (outcome (tries ce 0)) \<and> counts_as_success (outcome (tries ce 1))
            \<and> counts_as_success (outcome (tries ce 2))
            \<and> of_int \<lfloor>elapsedTotal ce / 3\<rfloor> \<le> maxLatency cfg \<and> 50 < \<lfloor>elapsedTotal ce / 3\<rfloor>
         then w2\<lparr>st := addValidIP \<lparr>ip = a, latency = \<lfloor>elapsedTotal ce / 3\<rfloor>\<rparr> (st w2)\<rparr>
         else w2)"
proof -
  obtain t c w2 where e: "attempts_loop cfg a ce (w\<lparr>st := increaseTestNo (st w)\<rparr>) = (t, c, w2)"
    by (cases "attempts_loop cfg a ce (w\<lparr>st := increaseTestNo (st w)\<rparr>)")
  have c: "c = (if counts_as_success (outcome (tries ce 0)) then 1 else 0)
     + (if counts_as_success (outcome (tries ce 1)) then 1 else 0)
     + (if counts_as_success (outcome (tries ce 2)) then 1 else 0)"
    using attempts_loop_count [of cfg a ce "w\<lparr>st := increaseTestNo (st w)\<rparr>"] by (simp add: e)
  have "(c = 3) = (counts_as_success (outcome (tries ce 0)) \<and> counts_as_success (outcome (tries ce 1))
            \<and> counts_as_success (outcome (tries ce 2)))"
    unfolding c by simp
  then show ?thesis
    by (simp add: test_candidate_def Let_def MAX_TRIES_def e)
qed

lemma test_candidate_validIPs:
  "validIPs (st (test_candidate cfg a ce w)) =
     (if counts_as_success (outcome (tries ce 0)) \<and> counts_as_success (outcome (tries ce 1))
         \<and> counts_as_success (outcome (tries ce 2))
         \<and> of_int \<lfloor>elapsedTotal ce / 3\<rfloor> \<le> maxLatency cfg \<and> 50 < \<lfloor>elapsedTotal ce / 3\<rfloor>
      then sort_key latency (validIPs (st w) @ [\<lparr>ip = a, latency = \<lfloor>elapsedTotal ce / 3\<rfloor>\<rparr>])
      else validIPs (st w))"
  by (simp add: test_candidate_cases Let_def addValidIP_def attempts_loop_validIPs increaseTestNo_def)

lemma test_candidate_testNo:
  "testNo (st (test_candidate cfg a ce w)) = testNo (st w) + 1"
  by (simp add: test_candidate_cases Let_def addValidIP_def attempts_loop_testNo increaseTestNo_def)

lemma test_candidate_calls:
  "calls (test_candidate cfg a ce w) = calls w @
     [build_request cfg a 0 (trunc (3 / 2 * multiply cfg * maxLatency cfg)) (multiply cfg * maxLatency cfg),
      build_request cfg a 1 (trunc (multiply cfg * maxLatency cfg)) (6 / 5 * multiply cfg * maxLatency cfg),
      build_request cfg a 2 (trunc (6 / 5 * multiply cfg * maxLatency cfg)) (6 / 5 * multiply cfg * maxLatency cfg)]"
  by (simp add: test_candidate_cases Let_def attempts_loop_calls)

lemma test_candidate_scanState:
  "scanState (st (test_candidate cfg a ce w)) =
     (if stopCalls (tries ce 0) + stopCalls (tries ce 1) + stopCalls (tries ce 2) = 0
      then scanState (st w)
      else if stopCalls (tries ce 0) + stopCalls (tries ce 1) + stopCalls (tries ce 2) = 1
              \<and> scanState (st w) = Scanning
      then Stopping else Idle)"
  by (simp add: test_candidate_cases Let_def addValidIP_def attempts_loop_scanState increaseTestNo_def)





lemma length_swap_at [simp]: "length (swap_at i j xs) = length xs"
  by (simp add: swap_at_def)

lemma mset_swap_at [simp]: "mset (swap_at i j xs) = mset xs"
  by (simp add: swap_at_def mset_swap)

lemma mset_fisher_yates [simp]: "mset (fisher_yates draw n xs) = mset xs"
  by (induction n arbitrary: xs) simp_all

lemma mset_randomizeElements: "mset (randomizeElements draw xs) = mset xs"
  by (simp add: randomizeElements_def)

lemma length_randomizeElements: "length (randomizeElements draw xs) = length xs"
  using mset_randomizeElements [of draw xs] by (metis size_mset)

lemma randomizeElements_Nil: "randomizeElements draw [] = []"
  by (simp add: randomizeElements_def)

lemma reset_eq: "reset s = initialState"
  by (simp add: reset_def initialState_def)

lemma test_candidate_undisturbed_scanState:
  "undisturbed ce \<Longrightarrow> scanState (st (test_candidate cfg a ce w)) = scanState (st w)"
  by (simp add: test_candidate_scanState undisturbed_def)

lemma test_candidate_rejected_validIPs:
  "\<not> counts_as_success (outcome (tries ce 0)) \<Longrightarrow>
     validIPs (st (test_candidate cfg a ce w)) = validIPs (st w)"
  by (simp add: test_candidate_validIPs)

lemma host_build_request [simp]: "host (build_request cfg a i d t) = a"
  by (simp add: build_request_def)

lemma attempt_build_request [simp]: "attempt (build_request cfg a i d t) = i"
  by (simp add: build_request_def)

lemma abortAfter_build_request [simp]: "abortAfter (build_request cfg a i d t) = d"
  by (simp add: build_request_def)

lemma timeoutArg_build_request [simp]: "timeoutArg (build_request cfg a i d t) = t"
  by (simp add: build_request_def)

text \<open>
  When no candidate is admitted, nothing throws and nobody stops the scan, the loop
  evaluates the whole list, in order.
\<close>

lemma testIPs_all_rejected:
  assumes "\<forall>j < length ips. undisturbed (env (k + j))
              \<and> \<not> counts_as_success (outcome (tries (env (k + j)) 0))"
    and "scanState (st w) = Scanning"
    and "int (length (validIPs (st w))) < maxIPCount cfg"
  shows "fst (testIPs cfg env k ips w) = Returned
       \<and> testNo (st (snd (testIPs cfg env k ips w))) = testNo (st w) + length ips
       \<and> map host (calls (snd (testIPs cfg env k ips w)))
           = map host (calls w) @ concat (map (replicate 3) ips)
       \<and> validIPs (st (snd (testIPs cfg env k ips w))) = validIPs (st w)
       \<and> scanState (st (snd (testIPs cfg env k ips w))) = Scanning"
  using assms
proof (induction ips arbitrary: k w)
  case Nil
  then show ?case by simp
next
  case (Cons a ips)
  let ?w' = "test_candidate cfg a (env k) w"
  have here: "undisturbed (env k)" "\<not> counts_as_success (outcome (tries (env k) 0))"
    using Cons.prems(1) by force+
  have rest: "\<forall>j < length ips. undisturbed (env (Suc k + j))
              \<and> \<not> counts_as_success (outcome (tries (env (Suc k + j)) 0))"
    using Cons.prems(1) by force
  have s': "scanState (st ?w') = Scanning"
    using here(1) Cons.prems(2) by (simp add: test_candidate_undisturbed_scanState)
  have v': "validIPs (st ?w') = validIPs (st w)"
    using here(2) by (rule test_candidate_rejected_validIPs)
  have n': "int (length (validIPs (st ?w'))) < maxIPCount cfg"
    using Cons.prems(3) by (simp add: v')
  have step: "testIPs cfg env k (a # ips) w = testIPs cfg env (Suc k) ips ?w'"
    using here(1) s' n' by (simp add: undisturbed_def Let_def getScanState_def getValidIPCount_def)
  have IH: "fst (testIPs cfg env (Suc k) ips ?w') = Returned
       \<and> testNo (st (snd (testIPs cfg env (Suc k) ips ?w'))) = testNo (st ?w') + length ips
       \<and> map host (calls (snd (testIPs cfg env (Suc k) ips ?w')))
           = map host (calls ?w') @ concat (map (replicate 3) ips)
       \<and> validIPs (st (snd (testIPs cfg env (Suc k) ips ?w'))) = validIPs (st ?w')
       \<and> scanState (st (snd (testIPs cfg env (Suc k) ips ?w'))) = Scanning"
    using rest s' n' by (rule Cons.IH)
  have c': "map host (calls ?w') = map host (calls w) @ replicate 3 a"
    by (simp add: test_candidate_calls numeral_3_eq_3)
  show ?case
    unfolding step using IH by (simp add: test_candidate_testNo v' c')
qed

lemma testIPs_no_fault:
  "(\<forall>j. \<not> fault (env j)) \<Longrightarrow> fst (testIPs cfg env k ips w) = Returned"
proof (induction ips arbitrary: k w)
  case Nil
  show ?case by simp
next
  case (Cons a ips)
  have "fst (testIPs cfg env (Suc k) ips (test_candidate cfg a (env k) w)) = Returned"
    using Cons.prems by (rule Cons.IH)
  with Cons.prems show ?case by (simp add: Let_def)
qed

lemma startScan_idle:
  assumes "\<forall>j. \<not> fault (env j)"
  shows "scanState (st (startScan rx cfg allIps draw env w)) = Idle"
proof (cases "filterIPs rx cfg allIps")
  case None
  then show ?thesis by (simp add: startScan_def reset_def)
next
  case (Some ips)
  let ?r = "testIPs cfg env 0 (randomizeElements draw ips) (w\<lparr>st := (reset (st w))\<lparr>scanState := Scanning\<rparr>\<rparr>)"
  have "fst ?r = Returned"
    using assms by (rule testIPs_no_fault)
  then obtain w2 where "?r = (Returned, w2)"
    by (metis prod.collapse)
  then show ?thesis
    by (simp add: startScan_def Some Let_def setToIdle_def)
qed







lemma startScan_validIPs_eq:
  "filterIPs rx cfg allIps = Some ips \<Longrightarrow>
     validIPs (st (startScan rx cfg allIps draw env w)) =
       validIPs (st (snd (testIPs cfg env 0 (randomizeElements draw ips)
         (w\<lparr>st := initialState\<lparr>scanState := Scanning\<rparr>\<rparr>))))
   \<and> testNo (st (startScan rx cfg allIps draw env w)) =
       testNo (st (snd (testIPs cfg env 0 (randomizeElements draw ips)
         (w\<lparr>st := initialState\<lparr>scanState := Scanning\<rparr>\<rparr>))))
   \<and> calls (startScan rx cfg allIps draw env w) =
       calls (snd (testIPs cfg env 0 (randomizeElements draw ips)
         (w\<lparr>st := initialState\<lparr>scanState := Scanning\<rparr>\<rparr>)))"
  by (cases "testIPs cfg env 0 (randomizeElements draw ips) (w\<lparr>st := initialState\<lparr>scanState := Scanning\<rparr>\<rparr>)"
        rule: prod.exhaust;
      cases "fst (testIPs cfg env 0 (randomizeElements draw ips) (w\<lparr>st := initialState\<lparr>scanState := Scanning\<rparr>\<rparr>))")
     (auto simp: startScan_def Let_def setToIdle_def reset_eq)







lemma testIPs_leaves_only_when:
  "fst (testIPs cfg env k ips w) = Returned \<Longrightarrow>
     testNo (st (snd (testIPs cfg env k ips w))) = testNo (st w) + length ips
     \<or> scanState (st (snd (testIPs cfg env k ips w))) \<noteq> Scanning
     \<or> maxIPCount cfg \<le> int (length (validIPs (st (snd (testIPs cfg env k ips w)))))"
proof (induction ips arbitrary: k w)
  case Nil
  show ?case by simp
next
  case (Cons a ips)
  let ?w' = "test_candidate cfg a (env k) w"
  have nf: "\<not> fault (env k)"
    using Cons.prems by (auto split: if_splits)
  show ?case
  proof (cases "getScanState (st ?w') \<noteq> Scanning \<or> maxIPCount cfg \<le> int (getValidIPCount (st ?w'))")
    case True
    then show ?thesis
      using nf by (auto simp: Let_def getScanState_def getValidIPCount_def)
  next
    case False
    then have eq: "testIPs cfg env k (a # ips) w = testIPs cfg env (Suc k) ips ?w'"
      using nf by (simp add: Let_def)
    have "fst (testIPs cfg env (Suc k) ips ?w') = Returned"
      using Cons.prems eq by simp
    then have "testNo (st (snd (testIPs cfg env (Suc k) ips ?w'))) = testNo (st ?w') + length ips
     \<or> scanState (st (snd (testIPs cfg env (Suc k) ips ?w'))) \<noteq> Scanning
     \<or> maxIPCount cfg \<le> int (length (validIPs (st (snd (testIPs cfg env (Suc k) ips ?w')))))"
      by (rule Cons.IH)
    then show ?thesis
      unfolding eq by (simp add: test_candidate_testNo)
  qed
qed

lemma startScan_all_rejected:
  assumes "filterIPs rx cfg allIps = Some ips"
    and "\<forall>j < length ips. undisturbed (env j) \<and> \<not> counts_as_success (outcome (tries (env j) 0))"
    and "0 < maxIPCount cfg"
  shows "testNo (st (startScan rx cfg allIps draw env w)) = length ips
       \<and> map host (calls (startScan rx cfg allIps draw env w))
           = map host (calls w) @ concat (map (replicate 3) (randomizeElements draw ips))"
proof -
  let ?w1 = "w\<lparr>st := initialState\<lparr>scanState := Scanning\<rparr>\<rparr>"
  let ?sh = "randomizeElements draw ips"
  have "\<forall>j < length ?sh. undisturbed (env (0 + j)) \<and> \<not> counts_as_success (outcome (tries (env (0 + j)) 0))"
    using assms(2) by (simp add: length_randomizeElements)
  moreover have "scanState (st ?w1) = Scanning"
    by simp
  moreover have "int (length (validIPs (st ?w1))) < maxIPCount cfg"
    using assms(3) by (simp add: initialState_def)
  ultimately have "fst (testIPs cfg env 0 ?sh ?w1) = Returned
       \<and> testNo (st (snd (testIPs cfg env 0 ?sh ?w1))) = testNo (st ?w1) + length ?sh
       \<and> map host (calls (snd (testIPs cfg env 0 ?sh ?w1)))
           = map host (calls ?w1) @ concat (map (replicate 3) ?sh)
       \<and> validIPs (st (snd (testIPs cfg env 0 ?sh ?w1))) = validIPs (st ?w1)
       \<and> scanState (st (snd (testIPs cfg env 0 ?sh ?w1))) = Scanning"
    by (rule testIPs_all_rejected)
  then show ?thesis
    using startScan_validIPs_eq [OF assms(1), of draw env w]
    by (simp add: length_randomizeElements initialState_def)
qed

lemma testIPs_stop_once:
  assumes "scanState (st w) = Scanning" and "\<not> fault (env k)"
    and "stopCalls (tries (env k) 0) + stopCalls (tries (env k) 1) + stopCalls (tries (env k) 2) = 1"
  shows "testIPs cfg env k (a # rest) w = (Returned, test_candidate cfg a (env k) w)
       \<and> scanState (st (test_candidate cfg a (env k) w)) = Stopping"
proof -
  have "scanState (st (test_candidate cfg a (env k) w)) = Stopping"
    using assms(1,3) by (simp add: test_candidate_scanState)
  then show ?thesis
    using assms(2) by (simp add: Let_def getScanState_def)
qed

section \<open>The admission policy\<close>

text \<open>
  C1. A candidate is admitted into the result store if and only if all three attempts
  were tallied as successful, its final latency is at most \<open>maxLatency\<close> and its final
  latency is greater than 50, where the final latency is the floor of the elapsed time
  divided by 3, whatever the attempts' outcomes were. When it is admitted, the entry with
  that latency is added; otherwise the store is unchanged.
\<close>

theorem admission_policy:
  "validIPs (st (test_candidate cfg a ce w)) =
     (if counts_as_success (outcome (tries ce 0)) \<and> counts_as_success (outcome (tries ce 1))
         \<and> counts_as_success (outcome (tries ce 2))
         \<and> of_int \<lfloor>elapsedTotal ce / 3\<rfloor> \<le> maxLatency cfg \<and> 50 < \<lfloor>elapsedTotal ce / 3\<rfloor>
      then sort_key latency (validIPs (st w) @ [\<lparr>ip = a, latency = \<lfloor>elapsedTotal ce / 3\<rfloor>\<rparr>])
      else validIPs (st w))
   \<and> (validIPs (st (test_candidate cfg a ce w)) \<noteq> validIPs (st w) \<longleftrightarrow>
        counts_as_success (outcome (tries ce 0)) \<and> counts_as_success (outcome (tries ce 1))
         \<and> counts_as_success (outcome (tries ce 2))
         \<and> of_int \<lfloor>elapsedTotal ce / 3\<rfloor> \<le> maxLatency cfg \<and> 50 < \<lfloor>elapsedTotal ce / 3\<rfloor>)"
proof -
  have "sort_key latency (validIPs (st w) @ [v]) \<noteq> validIPs (st w)" for v
  proof
    assume "sort_key latency (validIPs (st w) @ [v]) = validIPs (st w)"
    then have "length (sort_key latency (validIPs (st w) @ [v])) = length (validIPs (st w))"
      by simp
    then show False by simp
  qed
  then show ?thesis
    by (simp add: test_candidate_validIPs)
qed

theorem admission_policy_witness:
  "validIPs (st (test_candidate (settingsInitialValues\<lparr>maxLatency := 400\<rparr>) ''10.0.0.1''
       (steady Responded 153) initialWorld)) = [\<lparr>ip = ''10.0.0.1'', latency = 51\<rparr>]
   \<and> validIPs (st (test_candidate (settingsInitialValues\<lparr>maxLatency := 400\<rparr>) ''10.0.0.1''
       (steady Responded 152) initialWorld)) = []
   \<and> validIPs (st (test_candidate (settingsInitialValues\<lparr>maxLatency := 400\<rparr>) ''10.0.0.1''
       (steady Responded 1202) initialWorld)) = [\<lparr>ip = ''10.0.0.1'', latency = 400\<rparr>]
   \<and> validIPs (st (test_candidate (settingsInitialValues\<lparr>maxLatency := 400\<rparr>) ''10.0.0.1''
       (steady Responded 1203) initialWorld)) = []
   \<and> validIPs (st (test_candidate (settingsInitialValues\<lparr>maxLatency := 400\<rparr>) ''10.0.0.1''
       (stop_during 0 (steady (Rejected (ErrorNamed ''AbortError'')) 300)) initialWorld)) = []"
  using admission_policy [of "settingsInitialValues\<lparr>maxLatency := 400\<rparr>" "''10.0.0.1''" "steady Responded 153" initialWorld]
    admission_policy [of "settingsInitialValues\<lparr>maxLatency := 400\<rparr>" "''10.0.0.1''" "steady Responded 152" initialWorld]
    admission_policy [of "settingsInitialValues\<lparr>maxLatency := 400\<rparr>" "''10.0.0.1''" "steady Responded 1202" initialWorld]
    admission_policy [of "settingsInitialValues\<lparr>maxLatency := 400\<rparr>" "''10.0.0.1''" "steady Responded 1203" initialWorld]
    admission_policy [of "settingsInitialValues\<lparr>maxLatency := 400\<rparr>" "''10.0.0.1''"
       "stop_during 0 (steady (Rejected (ErrorNamed ''AbortError'')) 300)" initialWorld]
  by (simp add: steady_def stop_during_def initialWorld_def initialState_def settingsInitialValues_def)

section \<open>Timeouts of the attempts\<close>




section \<open>The tally of successful attempts\<close>

text \<open>
  C3, as amended. An attempt is tallied as successful when the request resolves, or
  rejects with an \<^verbatim>\<open>Error\<close> whose name is neither \<^verbatim>\<open>AbortError\<close> nor
  \<^verbatim>\<open>TypeError\<close>; a rejection named \<^verbatim>\<open>AbortError\<close> or \<^verbatim>\<open>TypeError\<close>, or with a
  value that is not an \<^verbatim>\<open>Error\<close>, is left out of the tally. Each round of the loop
  adds one to \<^verbatim>\<open>testCount\<close> exactly in the first case.
\<close>

theorem success_tally:
  "(counts_as_success r \<longleftrightarrow>
      r = Responded \<or> (\<exists>n. r = Rejected (ErrorNamed n) \<and> n \<noteq> ''AbortError'' \<and> n \<noteq> ''TypeError''))
   \<and> fst (snd (try_once cfg a ae i (t, c, w))) =
       (if counts_as_success (outcome (ae i)) then c + 1 else c)"
proof -
  have "counts_as_success r \<longleftrightarrow>
      r = Responded \<or> (\<exists>n. r = Rejected (ErrorNamed n) \<and> n \<noteq> ''AbortError'' \<and> n \<noteq> ''TypeError'')"
    by (cases r rule: counts_as_success.cases) simp_all
  then show ?thesis
    by (simp add: try_once_eq)
qed

theorem success_tally_witness:
  "counts_as_success (Rejected (ErrorNamed ''AxiosError''))
   \<and> \<not> counts_as_success (Rejected (ErrorNamed ''AbortError''))
   \<and> fst (snd (try_once settingsInitialValues ''10.0.0.1'' (tries (steady (Rejected (ErrorNamed ''AxiosError'')) 300)) 1
        (1500, 1, initialWorld))) = 2"
  using success_tally [of "Rejected (ErrorNamed ''AxiosError'')" settingsInitialValues "''10.0.0.1''"
      "tries (steady (Rejected (ErrorNamed ''AxiosError'')) 300)" 1 1500 1 initialWorld]
    success_tally [of "Rejected (ErrorNamed ''AbortError'')" settingsInitialValues "''10.0.0.1''"
      "tries (steady (Rejected (ErrorNamed ''AxiosError'')) 300)" 1 1500 1 initialWorld]
  by (simp add: steady_def)

text \<open>
  The claim as stated fails for a rejection named \<^verbatim>\<open>TypeError\<close>: it is neither a
  deadline expiry nor an abort, and it is not tallied, so a candidate whose requests all
  fail that way within the latency bounds is not admitted.
\<close>

theorem type_error_counterexample:
  "\<not> counts_as_success (Rejected (ErrorNamed ''TypeError''))
   \<and> \<not> claimed_excluded (Rejected (ErrorNamed ''TypeError''))
   \<and> validIPs (st (test_candidate settingsInitialValues ''10.0.0.1''
        (steady (Rejected (ErrorNamed ''TypeError'')) 300) initialWorld)) = []"
  by (simp add: claimed_excluded_def test_candidate_validIPs steady_def initialWorld_def initialState_def)

section \<open>The size of the result store\<close>




section \<open>The result store stays sorted\<close>

text \<open>
  C5. After every insertion into the result store the stored results are sorted
  ascending by latency (each entry's latency is at most its successor's), and the store
  holds exactly the entries it held before plus the new one.
\<close>

theorem addValidIP_sorted_mset:
  "(\<forall>i. i + 1 < length (validIPs (addValidIP v s)) \<longrightarrow>
        latency (validIPs (addValidIP v s) ! i) \<le> latency (validIPs (addValidIP v s) ! (i + 1)))
   \<and> sorted (map latency (validIPs (addValidIP v s)))
   \<and> mset (validIPs (addValidIP v s)) = mset (validIPs s) + {#v#}"
proof -
  let ?r = "validIPs (addValidIP v s)"
  have r: "?r = sort_key latency (validIPs s @ [v])"
    by (simp add: addValidIP_def)
  have srt: "sorted (map latency ?r)"
    unfolding r by (rule sorted_sort_key)
  have idx: "\<forall>i. i + 1 < length ?r \<longrightarrow> latency (?r ! i) \<le> latency (?r ! (i + 1))"
  proof (intro allI impI)
    fix i assume i: "i + 1 < length ?r"
    then have "map latency ?r ! i \<le> map latency ?r ! (i + 1)"
      using srt by (intro sorted_nth_mono) simp_all
    with i show "latency (?r ! i) \<le> latency (?r ! (i + 1))"
      by simp
  qed
  have "mset ?r = mset (validIPs s) + {#v#}"
    unfolding r by simp
  with srt idx show ?thesis by blast
qed

theorem addValidIP_sorted_mset_witness:
  "(1::nat) + 1 < length (validIPs (addValidIP \<lparr>ip = ''10.0.0.2'', latency = 80\<rparr>
       (initialState\<lparr>validIPs := [\<lparr>ip = ''10.0.0.1'', latency = 60\<rparr>,
                                   \<lparr>ip = ''10.0.0.3'', latency = 120\<rparr>]\<rparr>)))
   \<and> latency (validIPs (addValidIP \<lparr>ip = ''10.0.0.2'', latency = 80\<rparr>
       (initialState\<lparr>validIPs := [\<lparr>ip = ''10.0.0.1'', latency = 60\<rparr>,
                                   \<lparr>ip = ''10.0.0.3'', latency = 120\<rparr>]\<rparr>)) ! 1)
     \<le> latency (validIPs (addValidIP \<lparr>ip = ''10.0.0.2'', latency = 80\<rparr>
       (initialState\<lparr>validIPs := [\<lparr>ip = ''10.0.0.1'', latency = 60\<rparr>,
                                   \<lparr>ip = ''10.0.0.3'', latency = 120\<rparr>]\<rparr>)) ! (1 + 1))
   \<and> map latency (validIPs (addValidIP \<lparr>ip = ''10.0.0.2'', latency = 80\<rparr>
       (initialState\<lparr>validIPs := [\<lparr>ip = ''10.0.0.1'', latency = 60\<rparr>,
                                   \<lparr>ip = ''10.0.0.3'', latency = 120\<rparr>]\<rparr>))) = [60, 80, 120]"
proof -
  let ?s = "initialState\<lparr>validIPs := [\<lparr>ip = ''10.0.0.1'', latency = 60\<rparr>,
                                      \<lparr>ip = ''10.0.0.3'', latency = 120\<rparr>]\<rparr>"
  let ?v = "\<lparr>ip = ''10.0.0.2'', latency = 80\<rparr>"
  have len: "(1::nat) + 1 < length (validIPs (addValidIP ?v ?s))"
    by (simp add: addValidIP_def initialState_def)
  have vals: "map latency (validIPs (addValidIP ?v ?s)) = [60, 80, 120]"
    by (simp add: addValidIP_def initialState_def)
  show ?thesis
    using addValidIP_sorted_mset [of ?v ?s] len vals by blast
qed

section \<open>Resetting at the start of a scan\<close>




section \<open>Exceptions during a scan\<close>




section \<open>No cap on the number of candidates\<close>

text \<open>
  C8, as amended. The loop applies no cap of its own to the number of candidates: when it
  returns, either it has evaluated the whole list it was given, or the state is no longer
  scanning, or the result store holds \<open>maxIPCount\<close> entries. In particular, when no
  candidate is admitted and nothing interferes, \<^verbatim>\<open>startScan\<close> evaluates every
  candidate of the filtered, shuffled list, in the shuffled order, three requests each.
\<close>

theorem no_cap_on_candidates:
  "(fst (testIPs cfg env k ips w) = Returned \<longrightarrow>
      testNo (st (snd (testIPs cfg env k ips w))) = testNo (st w) + length ips
      \<or> scanState (st (snd (testIPs cfg env k ips w))) \<noteq> Scanning
      \<or> maxIPCount cfg \<le> int (length (validIPs (st (snd (testIPs cfg env k ips w))))))
   \<and> (filterIPs rx cfg allIps = Some ips
       \<and> (\<forall>j < length ips. undisturbed (env j) \<and> \<not> counts_as_success (outcome (tries (env j) 0)))
       \<and> 0 < maxIPCount cfg \<longrightarrow>
      testNo (st (startScan rx cfg allIps draw env w)) = length ips
      \<and> map host (calls (startScan rx cfg allIps draw env w))
           = map host (calls w) @ concat (map (replicate 3) (randomizeElements draw ips)))"
  using testIPs_leaves_only_when [of cfg env k ips w]
    startScan_all_rejected [of rx cfg allIps ips env draw w]
  by blast

theorem no_cap_on_candidates_witness:
  "fst (testIPs settingsInitialValues (\<lambda>k. steady (Rejected (ErrorNamed ''AbortError'')) 4500) 0
        (sample_ips 3) (initialWorld\<lparr>st := initialState\<lparr>scanState := Scanning\<rparr>\<rparr>)) = Returned
   \<and> testNo (st (snd (testIPs settingsInitialValues (\<lambda>k. steady (Rejected (ErrorNamed ''AbortError'')) 4500) 0
        (sample_ips 3) (initialWorld\<lparr>st := initialState\<lparr>scanState := Scanning\<rparr>\<rparr>)))) = 3
   \<and> filterIPs digits_engine settingsInitialValues (sample_ips 3) = Some (sample_ips 3)
   \<and> undisturbed (steady (Rejected (ErrorNamed ''AbortError'')) 4500)
   \<and> \<not> counts_as_success (outcome (tries (steady (Rejected (ErrorNamed ''AbortError'')) 4500) 0))
   \<and> 0 < maxIPCount settingsInitialValues
   \<and> testNo (st (startScan digits_engine settingsInitialValues (sample_ips 3) (\<lambda>i. 0)
        (\<lambda>k. steady (Rejected (ErrorNamed ''AbortError'')) 4500) initialWorld)) = 3
   \<and> map host (calls (startScan digits_engine settingsInitialValues (sample_ips 3) (\<lambda>i. 0)
        (\<lambda>k. steady (Rejected (ErrorNamed ''AbortError'')) 4500) initialWorld))
      = [''10.0.0.1'', ''10.0.0.1'', ''10.0.0.1'', ''10.0.0.2'', ''10.0.0.2'', ''10.0.0.2'',
         ''10.0.0.0'', ''10.0.0.0'', ''10.0.0.0'']"
proof -
  let ?env = "\<lambda>k::nat. steady (Rejected (ErrorNamed ''AbortError'')) 4500"
  let ?w1 = "initialWorld\<lparr>st := initialState\<lparr>scanState := Scanning\<rparr>\<rparr>"
  have h0: "fst (testIPs settingsInitialValues ?env 0 (sample_ips 3) ?w1) = Returned"
    by code_simp
  have s: "scanState (st (snd (testIPs settingsInitialValues ?env 0 (sample_ips 3) ?w1))) = Scanning"
    by code_simp
  have v: "\<not> maxIPCount settingsInitialValues
             \<le> int (length (validIPs (st (snd (testIPs settingsInitialValues ?env 0 (sample_ips 3) ?w1)))))"
    by code_simp
  have t0: "testNo (st ?w1) + length (sample_ips 3) = 3"
    by code_simp
  have h1: "filterIPs digits_engine settingsInitialValues (sample_ips 3) = Some (sample_ips 3)"
    by (simp add: filterIPs_def settingsInitialValues_def)
  have h2: "undisturbed (steady (Rejected (ErrorNamed ''AbortError'')) 4500)"
    by (simp add: undisturbed_def steady_def)
  have h3: "\<not> counts_as_success (outcome (tries (steady (Rejected (ErrorNamed ''AbortError'')) 4500) 0))"
    by (simp add: steady_def)
  have h4: "0 < maxIPCount settingsInitialValues"
    by (simp add: settingsInitialValues_def)
  have sh: "concat (map (replicate 3) (randomizeElements (\<lambda>i. 0) (sample_ips 3)))
      = [''10.0.0.1'', ''10.0.0.1'', ''10.0.0.1'', ''10.0.0.2'', ''10.0.0.2'', ''10.0.0.2'',
         ''10.0.0.0'', ''10.0.0.0'', ''10.0.0.0'']"
    by code_simp
  have c0: "map host (calls initialWorld) = []"
    by (simp add: initialWorld_def)
  have a: "testNo (st (snd (testIPs settingsInitialValues ?env 0 (sample_ips 3) ?w1))) = 3"
    using no_cap_on_candidates [of settingsInitialValues ?env 0 "sample_ips 3" ?w1] h0 s v t0
    by simp
  have b: "testNo (st (startScan digits_engine settingsInitialValues (sample_ips 3) (\<lambda>i. 0) ?env initialWorld)) = length (sample_ips 3)
     \<and> map host (calls (startScan digits_engine settingsInitialValues (sample_ips 3) (\<lambda>i. 0) ?env initialWorld))
         = map host (calls initialWorld) @ concat (map (replicate 3) (randomizeElements (\<lambda>i. 0) (sample_ips 3)))"
    using no_cap_on_candidates [of settingsInitialValues ?env 0 "sample_ips 3" initialWorld digits_engine
        "sample_ips 3" "\<lambda>i. 0"] h1 h2 h3 h4
    by blast
  have l: "length (sample_ips 3) = 3"
    by (simp add: sample_ips_def)
  show ?thesis
    using h0 a h1 h2 h3 h4 b by (simp add: l sh c0)
qed

text \<open>
  The claim as stated fails on a list of 151 candidates whose requests all time out: all
  151 are evaluated, with 453 requests.
\<close>

theorem more_than_150_counterexample:
  "length (sample_ips 151) = 151
   \<and> testNo (st (startScan digits_engine settingsInitialValues (sample_ips 151) (\<lambda>i. 0)
        (\<lambda>k. steady (Rejected (ErrorNamed ''AbortError'')) 4500) initialWorld)) = 151
   \<and> length (calls (startScan digits_engine settingsInitialValues (sample_ips 151) (\<lambda>i. 0)
        (\<lambda>k. steady (Rejected (ErrorNamed ''AbortError'')) 4500) initialWorld)) = 453"
proof -
  let ?env = "\<lambda>k::nat. steady (Rejected (ErrorNamed ''AbortError'')) 4500"
  have l: "length (sample_ips 151) = 151"
    by (simp add: sample_ips_def)
  have h1: "filterIPs digits_engine settingsInitialValues (sample_ips 151) = Some (sample_ips 151)"
    by (simp add: filterIPs_def settingsInitialValues_def)
  have h2: "\<forall>j < length (sample_ips 151). undisturbed (?env j)
              \<and> \<not> counts_as_success (outcome (tries (?env j) 0))"
    by (simp add: undisturbed_def steady_def)
  have h3: "0 < maxIPCount settingsInitialValues"
    by (simp add: settingsInitialValues_def)
  have r: "testNo (st (startScan digits_engine settingsInitialValues (sample_ips 151) (\<lambda>i. 0) ?env initialWorld))
             = length (sample_ips 151)
       \<and> map host (calls (startScan digits_engine settingsInitialValues (sample_ips 151) (\<lambda>i. 0) ?env initialWorld))
           = map host (calls initialWorld)
             @ concat (map (replicate 3) (randomizeElements (\<lambda>i. 0) (sample_ips 151)))"
    using h1 h2 h3 by (rule startScan_all_rejected)
  have "length (map host (calls (startScan digits_engine settingsInitialValues (sample_ips 151) (\<lambda>i. 0) ?env initialWorld)))
      = length (map host (calls initialWorld)
             @ concat (map (replicate 3) (randomizeElements (\<lambda>i. 0) (sample_ips 151))))"
    using r by simp
  also have "\<dots> = 3 * length (randomizeElements (\<lambda>i. 0) (sample_ips 151))"
    by (simp add: initialWorld_def length_concat o_def sum_list_triv)
  also have "\<dots> = 453"
    by (simp add: length_randomizeElements l)
  finally have c: "length (calls (startScan digits_engine settingsInitialValues (sample_ips 151) (\<lambda>i. 0) ?env initialWorld)) = 453"
    by simp
  from l r c show ?thesis by simp
qed

section \<open>Stopping a scan\<close>

text \<open>
  C9, as amended. \<^verbatim>\<open>stopScan\<close> moves a scanning store to stopping and any other store
  to idle. The loop observes the state between candidates only: when the user stops the
  scan once during a candidate, the three attempts of that candidate are all made, the
  state is stopping when they are done, and the loop returns without probing a further
  candidate. A scan whose loop returns ends idle.
\<close>

theorem stop_is_cooperative:
  "(scanState s = Scanning \<longrightarrow> scanState (stopScan s) = Stopping)
   \<and> (scanState s \<noteq> Scanning \<longrightarrow> scanState (stopScan s) = Idle)
   \<and> (scanState (st w) = Scanning \<and> \<not> fault (env k)
       \<and> stopCalls (tries (env k) 0) + stopCalls (tries (env k) 1) + stopCalls (tries (env k) 2) = 1 \<longrightarrow>
        testIPs cfg env k (a # rest) w = (Returned, test_candidate cfg a (env k) w)
        \<and> scanState (st (test_candidate cfg a (env k) w)) = Stopping
        \<and> map attempt (drop (length (calls w)) (calls (test_candidate cfg a (env k) w))) = [0, 1, 2])
   \<and> ((\<forall>j. \<not> fault (env j)) \<longrightarrow> scanState (st (startScan rx cfg allIps draw env w)) = Idle)"
proof (intro conjI impI)
  assume "scanState s = Scanning"
  then show "scanState (stopScan s) = Stopping"
    by (simp add: scanState_stopScan)
next
  assume "scanState s \<noteq> Scanning"
  then show "scanState (stopScan s) = Idle"
    by (simp add: scanState_stopScan)
next
  assume h: "scanState (st w) = Scanning \<and> \<not> fault (env k)
       \<and> stopCalls (tries (env k) 0) + stopCalls (tries (env k) 1) + stopCalls (tries (env k) 2) = 1"
  then show "testIPs cfg env k (a # rest) w = (Returned, test_candidate cfg a (env k) w)"
    using testIPs_stop_once [of w env k cfg a rest] by blast
  from h show "scanState (st (test_candidate cfg a (env k) w)) = Stopping"
    using testIPs_stop_once [of w env k cfg a rest] by blast
  show "map attempt (drop (length (calls w)) (calls (test_candidate cfg a (env k) w))) = [0, 1, 2]"
    by (simp add: test_candidate_calls)
next
  assume "\<forall>j. \<not> fault (env j)"
  then show "scanState (st (startScan rx cfg allIps draw env w)) = Idle"
    by (rule startScan_idle)
qed

theorem stop_is_cooperative_witness:
  "scanState (initialState\<lparr>scanState := Scanning\<rparr>) = Scanning
   \<and> scanState (stopScan (initialState\<lparr>scanState := Scanning\<rparr>)) = Stopping
   \<and> scanState (initialState\<lparr>scanState := Stopping\<rparr>) \<noteq> Scanning
   \<and> scanState (stopScan (initialState\<lparr>scanState := Stopping\<rparr>)) = Idle
   \<and> scanState initialState \<noteq> Scanning
   \<and> scanState (stopScan initialState) = Idle
   \<and> scanState (st (initialWorld\<lparr>st := initialState\<lparr>scanState := Scanning\<rparr>\<rparr>)) = Scanning
   \<and> \<not> fault (stop_during 1 (steady Responded 300))
   \<and> stopCalls (tries (stop_during 1 (steady Responded 300)) 0)
       + stopCalls (tries (stop_during 1 (steady Responded 300)) 1)
       + stopCalls (tries (stop_during 1 (steady Responded 300)) 2) = 1
   \<and> testIPs settingsInitialValues (\<lambda>k. stop_during 1 (steady Responded 300)) 0 [''10.0.0.1'', ''10.0.0.2'']
        (initialWorld\<lparr>st := initialState\<lparr>scanState := Scanning\<rparr>\<rparr>)
      = (Returned, test_candidate settingsInitialValues ''10.0.0.1'' (stop_during 1 (steady Responded 300))
          (initialWorld\<lparr>st := initialState\<lparr>scanState := Scanning\<rparr>\<rparr>))
   \<and> scanState (st (startScan digits_engine settingsInitialValues [''10.0.0.1'', ''10.0.0.2''] (\<lambda>i. 0)
        (\<lambda>k. stop_during 1 (steady Responded 300)) initialWorld)) = Idle"
proof -
  let ?env = "\<lambda>k::nat. stop_during 1 (steady Responded 300)"
  let ?w1 = "initialWorld\<lparr>st := initialState\<lparr>scanState := Scanning\<rparr>\<rparr>"
  have h1: "scanState (initialState\<lparr>scanState := Scanning\<rparr>) = Scanning"
    by simp
  have h2: "scanState (initialState\<lparr>scanState := Stopping\<rparr>) \<noteq> Scanning"
    by simp
  have h3: "scanState initialState \<noteq> Scanning"
    by (simp add: initialState_def)
  have h4: "scanState (st ?w1) = Scanning"
    by simp
  have h5: "\<not> fault (stop_during 1 (steady Responded 300))"
    by (simp add: stop_during_def steady_def)
  have h6: "stopCalls (tries (stop_during 1 (steady Responded 300)) 0)
       + stopCalls (tries (stop_during 1 (steady Responded 300)) 1)
       + stopCalls (tries (stop_during 1 (steady Responded 300)) 2) = 1"
    by (simp add: stop_during_def steady_def)
  have h7: "\<forall>j. \<not> fault (?env j)"
    using h5 by simp
  show ?thesis
    using stop_is_cooperative [of "initialState\<lparr>scanState := Scanning\<rparr>" ?w1 ?env 0 settingsInitialValues
        "''10.0.0.1''" "[''10.0.0.2'']" digits_engine "[''10.0.0.1'', ''10.0.0.2'']" "\<lambda>i. 0"]
      stop_is_cooperative [of "initialState\<lparr>scanState := Stopping\<rparr>" ?w1 ?env 0 settingsInitialValues
        "''10.0.0.1''" "[''10.0.0.2'']" digits_engine "[''10.0.0.1'', ''10.0.0.2'']" "\<lambda>i. 0"]
      stop_is_cooperative [of initialState initialWorld ?env 0 settingsInitialValues
        "''10.0.0.1''" "[''10.0.0.2'']" digits_engine "[''10.0.0.1'', ''10.0.0.2'']" "\<lambda>i. 0"]
      h1 h2 h3 h4 h5 h6 h7
    by blast
qed

text \<open>
  The claim as stated fails between attempts: after a stop during attempt 0 the state is
  stopping, and attempts 1 and 2 of the same candidate are made all the same; the next
  candidate is not probed.
\<close>

theorem attempts_after_stop_counterexample:
  "scanState (st (snd (snd (try_once settingsInitialValues ''10.0.0.2''
        (tries (stop_during 0 (steady Responded 300))) 0
        (2250, 0, initialWorld\<lparr>st := increaseTestNo (initialState\<lparr>scanState := Scanning\<rparr>)\<rparr>))))) = Stopping
   \<and> map attempt (calls (startScan digits_engine settingsInitialValues [''10.0.0.1'', ''10.0.0.2''] (\<lambda>i. 0)
        (\<lambda>k. stop_during 0 (steady Responded 300)) initialWorld)) = [0, 1, 2]
   \<and> map host (calls (startScan digits_engine settingsInitialValues [''10.0.0.1'', ''10.0.0.2''] (\<lambda>i. 0)
        (\<lambda>k. stop_during 0 (steady Responded 300)) initialWorld)) = [''10.0.0.2'', ''10.0.0.2'', ''10.0.0.2'']"
  by code_simp

section \<open>Nothing to probe\<close>

text \<open>
  C10. If the candidate list is empty, or the filter pattern is valid and matches no
  candidate, \<^verbatim>\<open>startScan\<close> probes nothing: it ends idle, with an empty result store,
  the attempt counter at 0 and no request made.
\<close>

theorem nothing_to_probe:
  assumes "allIps = []
           \<or> (ipRegex cfg \<noteq> [] \<and> rx (ipRegex cfg) = Some test \<and> (\<forall>x \<in> set allIps. \<not> test x))"
  shows "scanState (st (startScan rx cfg allIps draw env w)) = Idle
       \<and> validIPs (st (startScan rx cfg allIps draw env w)) = []
       \<and> testNo (st (startScan rx cfg allIps draw env w)) = 0
       \<and> calls (startScan rx cfg allIps draw env w) = calls w"
proof -
  have "filterIPs rx cfg allIps = Some []"
    using assms by (auto simp: filterIPs_def)
  then show ?thesis
    by (simp add: startScan_def Let_def randomizeElements_Nil reset_def setToIdle_def)
qed

theorem nothing_to_probe_witness:
  "scanState (st (startScan digits_engine settingsInitialValues [] (\<lambda>i. 0) (\<lambda>k. steady Responded 300)
       (initialWorld\<lparr>st := initialState\<lparr>testNo := 7, validIPs := [\<lparr>ip = ''10.0.0.9'', latency = 90\<rparr>]\<rparr>\<rparr>))) = Idle
   \<and> validIPs (st (startScan digits_engine settingsInitialValues [] (\<lambda>i. 0) (\<lambda>k. steady Responded 300)
       (initialWorld\<lparr>st := initialState\<lparr>testNo := 7, validIPs := [\<lparr>ip = ''10.0.0.9'', latency = 90\<rparr>]\<rparr>\<rparr>))) = []
   \<and> testNo (st (startScan digits_engine settingsInitialValues [] (\<lambda>i. 0) (\<lambda>k. steady Responded 300)
       (initialWorld\<lparr>st := initialState\<lparr>testNo := 7, validIPs := [\<lparr>ip = ''10.0.0.9'', latency = 90\<rparr>]\<rparr>\<rparr>))) = 0
   \<and> ipRegex (settingsInitialValues\<lparr>ipRegex := ''104''\<rparr>) \<noteq> []
   \<and> digits_engine (ipRegex (settingsInitialValues\<lparr>ipRegex := ''104''\<rparr>)) = Some (occurs_in ''104'')
   \<and> \<not> occurs_in ''104'' ''10.0.0.0'' \<and> \<not> occurs_in ''104'' ''10.0.0.1''
   \<and> scanState (st (startScan digits_engine (settingsInitialValues\<lparr>ipRegex := ''104''\<rparr>) (sample_ips 2)
        (\<lambda>i. 0) (\<lambda>k. steady Responded 300) initialWorld)) = Idle
   \<and> validIPs (st (startScan digits_engine (settingsInitialValues\<lparr>ipRegex := ''104''\<rparr>) (sample_ips 2)
        (\<lambda>i. 0) (\<lambda>k. steady Responded 300) initialWorld)) = []
   \<and> testNo (st (startScan digits_engine (settingsInitialValues\<lparr>ipRegex := ''104''\<rparr>) (sample_ips 2)
        (\<lambda>i. 0) (\<lambda>k. steady Responded 300) initialWorld)) = 0
   \<and> calls (startScan digits_engine (settingsInitialValues\<lparr>ipRegex := ''104''\<rparr>) (sample_ips 2)
        (\<lambda>i. 0) (\<lambda>k. steady Responded 300) initialWorld) = []"
proof -
  let ?w = "initialWorld\<lparr>st := initialState\<lparr>testNo := 7, validIPs := [\<lparr>ip = ''10.0.0.9'', latency = 90\<rparr>]\<rparr>\<rparr>"
  let ?cfg = "settingsInitialValues\<lparr>ipRegex := ''104''\<rparr>"
  have a: "([]::string list) = []
           \<or> (ipRegex settingsInitialValues \<noteq> [] \<and> digits_engine (ipRegex settingsInitialValues) = Some (occurs_in ''104'')
               \<and> (\<forall>x \<in> set []. \<not> occurs_in ''104'' x))"
    by simp
  have n1: "\<not> occurs_in ''104'' ''10.0.0.0''"
    by code_simp
  have n2: "\<not> occurs_in ''104'' ''10.0.0.1''"
    by code_simp
  have s2: "sample_ips 2 = [''10.0.0.0'', ''10.0.0.1'']"
    by code_simp
  have r: "ipRegex ?cfg \<noteq> []"
    by simp
  have e: "digits_engine (ipRegex ?cfg) = Some (occurs_in ''104'')"
    by (simp add: digits_engine_def)
  have b: "sample_ips 2 = []
           \<or> (ipRegex ?cfg \<noteq> [] \<and> digits_engine (ipRegex ?cfg) = Some (occurs_in ''104'')
               \<and> (\<forall>x \<in> set (sample_ips 2). \<not> occurs_in ''104'' x))"
    using n1 n2 r e by (simp add: s2)
  have c: "calls initialWorld = []"
    by (simp add: initialWorld_def)
  show ?thesis
    using nothing_to_probe [where allIps = "[]" and cfg = settingsInitialValues and rx = digits_engine
        and test = "occurs_in ''104''" and draw = "\<lambda>i. 0" and env = "\<lambda>k. steady Responded 300"
        and w = ?w, OF a]
      nothing_to_probe [where allIps = "sample_ips 2" and cfg = ?cfg and rx = digits_engine
        and test = "occurs_in ''104''" and draw = "\<lambda>i. 0" and env = "\<lambda>k. steady Responded 300"
        and w = initialWorld, OF b]
      n1 n2 r e c
    by simp
qed

end
